theory Spec2Isabelle
  imports Complex_Main "HOL-Library.Word" "HOL-Library.Log_Nat"
begin

section \<open>Python values\<close>

text \<open>
  A Python \<open>str\<close> is a sequence of Unicode code points, so it is modelled as a list of
  natural numbers rather than as a list of 8-bit characters: the configuration strings of
  \<open>ocr_engine.py\<close> contain the code point U+2122, and \<open>str.strip\<close> removes every
  Unicode white-space character.
\<close>

type_synonym pystr = "nat list"

definition ascii :: "string \<Rightarrow> pystr" where
  "ascii s = map of_char s"

text \<open>\<open>str.isspace\<close> on one code point (the table of CPython's \<open>Py_UNICODE_ISSPACE\<close>).\<close>

definition isspace :: "nat \<Rightarrow> bool" where
  "isspace c \<longleftrightarrow>
     (9 \<le> c \<and> c \<le> 13) \<or> (28 \<le> c \<and> c \<le> 32) \<or> c = 133 \<or> c = 160 \<or> c = 5760 \<or>
     (8192 \<le> c \<and> c \<le> 8202) \<or> c = 8232 \<or> c = 8233 \<or> c = 8239 \<or> c = 8287 \<or> c = 12288"

definition lstrip :: "pystr \<Rightarrow> pystr" where
  "lstrip s = dropWhile isspace s"

definition rstrip :: "pystr \<Rightarrow> pystr" where
  "rstrip s = rev (dropWhile isspace (rev s))"

definition strip :: "pystr \<Rightarrow> pystr" where
  "strip s = rstrip (lstrip s)"

text \<open>\<open>sep.join(parts)\<close>.\<close>

fun join :: "pystr \<Rightarrow> pystr list \<Rightarrow> pystr" where
  "join sep [] = []"
| "join sep [p] = p"
| "join sep (p # q # ps) = p @ sep @ join sep (q # ps)"

text \<open>\<open>int(x)\<close> on a number truncates towards zero.\<close>

definition py_int :: "real \<Rightarrow> int" where
  "py_int v = (if 0 \<le> v then \<lfloor>v\<rfloor> else \<lceil>v\<rceil>)"

text \<open>
  A Python float is a binary double: a number with a significand of 53 bits. It is
  modelled as the real number it stands for, and every float operation rounds its exact
  result to the nearest such number, a tie going to the even significand.
  \<open>half_even\<close> is rounding to the nearest integer with ties to even; \<open>ldexp m k\<close> is
  \<open>m\<close> times the \<open>k\<close>-th power of two; \<open>binary_exponent q\<close> is the \<open>e\<close> with
  \<open>2^e \<le> q < 2^(e+1)\<close> for a positive \<open>q\<close>. The range of the exponent is not modelled:
  the quotients below are means of scores, and a score that a double can hold keeps
  them inside that range.
\<close>

definition half_even :: "real \<Rightarrow> int" where
  "half_even v =
     (let f = \<lfloor>v\<rfloor>; d = v - of_int f
      in if d < 1 / 2 then f else if 1 / 2 < d then f + 1
         else if even f then f else f + 1)"

definition ldexp :: "real \<Rightarrow> int \<Rightarrow> real" where
  "ldexp m k = (if 0 \<le> k then m * 2 ^ nat k else m / 2 ^ nat (- k))"

definition binary_exponent :: "real \<Rightarrow> int" where
  "binary_exponent q =
     (if 1 \<le> q then bitlen \<lfloor>q\<rfloor> - 1 else - bitlen (\<lceil>1 / q\<rceil> - 1))"

definition nearest_double :: "real \<Rightarrow> real" where
  "nearest_double q =
     (if q = 0 then 0
      else let a = \<bar>q\<bar>; e = binary_exponent a;
               m = half_even (ldexp a (52 - e))
           in sgn q * ldexp (of_int m) (e - 52))"

text \<open>
  \<open>a / b\<close> on two Python integers is the double nearest to the exact quotient.
  \<open>round(x, 2)\<close> on a float takes the decimal with two places nearest to the exact value
  of \<open>x\<close> (a tie going to the even last digit) and returns the double nearest to that
  decimal. So \<open>round(2047 / 40, 2)\<close> is 51.17 and not 51.18: the double for 51.175 lies
  just below it.
\<close>

definition py_truediv :: "int \<Rightarrow> nat \<Rightarrow> real" where
  "py_truediv a b = nearest_double (of_int a / of_nat b)"

definition py_round2 :: "real \<Rightarrow> real" where
  "py_round2 x = nearest_double (of_int (half_even (x * 100)) / 100)"

datatype error =
    TesseractNotFoundError pystr
  | TesseractError pystr
  | IndexError
  | Cv2Error
  | UnsupportedModeError pystr

definition bind_err :: "error + 'a \<Rightarrow> ('a \<Rightarrow> error + 'b) \<Rightarrow> error + 'b" where
  "bind_err m f = (case m of Inl e \<Rightarrow> Inl e | Inr v \<Rightarrow> f v)"

text \<open>\<open>xs[i]\<close> for \<open>i\<close> drawn from a \<open>range\<close>: an index past the end raises.\<close>

definition py_getitem :: "'a list \<Rightarrow> nat \<Rightarrow> error + 'a" where
  "py_getitem xs i = (if i < length xs then Inr (xs ! i) else Inl IndexError)"

section \<open>Pixel buffers\<close>

text \<open>
  A single-channel 8-bit image (\<open>np.ndarray\<close> of \<open>uint8\<close>, OpenCV's \<open>CV_8UC1\<close>), stored
  row by row.
\<close>

record mat =
  mat_rows :: nat
  mat_cols :: nat
  mat_data :: "8 word list"

definition valid_mat :: "mat \<Rightarrow> bool" where
  "valid_mat m \<longleftrightarrow>
     0 < mat_rows m \<and> 0 < mat_cols m \<and> length (mat_data m) = mat_rows m * mat_cols m"

definition pixel :: "mat \<Rightarrow> nat \<Rightarrow> nat \<Rightarrow> 8 word" where
  "pixel m y x = mat_data m ! (y * mat_cols m + x)"

section \<open>The recognition engine behind \<open>pytesseract\<close>\<close>

text \<open>
  \<open>ocr_engine.py\<close> reaches the engine through two library calls,
  \<open>pytesseract.image_to_string\<close> and \<open>pytesseract.image_to_data\<close>. The engine is a
  parameter of the model. When the Tesseract binary is missing, both calls raise
  \<open>TesseractNotFoundError\<close> with the library's message; an installed engine answers
  with text, with a table of columns, or with an error of its own. Every call is appended
  to a log, which is the state the recognizers pass along: the log tells how often, and
  with which configuration, the engine was invoked.
\<close>

record tess_data =
  data_text :: "pystr list"
  data_conf :: "real list"
  data_left :: "int list"
  data_top :: "int list"
  data_width :: "int list"
  data_height :: "int list"

datatype tess_op = ImageToString | ImageToData

record tess_call =
  call_op :: tess_op
  call_image :: mat
  call_lang :: pystr
  call_config :: pystr

datatype tesseract =
    NotInstalled pystr
  | Installed "mat \<Rightarrow> pystr \<Rightarrow> pystr \<Rightarrow> error + pystr"
              "mat \<Rightarrow> pystr \<Rightarrow> pystr \<Rightarrow> error + tess_data"

definition image_to_string ::
  "tesseract \<Rightarrow> mat \<Rightarrow> pystr \<Rightarrow> pystr \<Rightarrow> tess_call list \<Rightarrow> (error + pystr) \<times> tess_call list" where
  "image_to_string tess img lang config calls =
     ((case tess of
         NotInstalled msg \<Rightarrow> Inl (TesseractNotFoundError msg)
       | Installed to_string to_data \<Rightarrow> to_string img lang config),
      calls @ [\<lparr>call_op = ImageToString, call_image = img, call_lang = lang,
              call_config = config\<rparr>])"

definition image_to_data ::
  "tesseract \<Rightarrow> mat \<Rightarrow> pystr \<Rightarrow> pystr \<Rightarrow> tess_call list \<Rightarrow>
     (error + tess_data) \<times> tess_call list" where
  "image_to_data tess img lang config calls =
     ((case tess of
         NotInstalled msg \<Rightarrow> Inl (TesseractNotFoundError msg)
       | Installed to_string to_data \<Rightarrow> to_data img lang config),
      calls @ [\<lparr>call_op = ImageToData, call_image = img, call_lang = lang,
              call_config = config\<rparr>])"

text \<open>An engine that gives the same answers to every call.\<close>

definition fixed_engine :: "pystr \<Rightarrow> tess_data \<Rightarrow> tesseract" where
  "fixed_engine out tab = Installed (\<lambda>img lang config. Inr out) (\<lambda>img lang config. Inr tab)"

text \<open>\<open>Image.fromarray\<close> wraps a two-dimensional \<open>uint8\<close> array without changing it.\<close>

definition Image_fromarray :: "mat \<Rightarrow> mat" where
  "Image_fromarray a = a"

section \<open>\<open>extract_text_with_confidence\<close>\<close>

text \<open>
  \<^verbatim>\<open>
    config = ('--oem 3 ' '--psm 3 ' '-c preserve_interword_spaces=1')
    data = pytesseract.image_to_data(pil_img, lang='eng', config=config,
                                     output_type=pytesseract.Output.DICT)
    words = []
    for i in range(len(data['text'])):
        conf = int(data['conf'][i])
        text = data['text'][i].strip()
        if conf > 50 and text:
            words.append({'text': text, 'confidence': conf,
                          'box': {'x': data['left'][i], 'y': data['top'][i],
                                  'width': data['width'][i], 'height': data['height'][i]}})
    full_text = ' '.join([w['text'] for w in words])
    avg_conf = sum([w['confidence'] for w in words]) / len(words) if words else 0
    high_conf_words = len([w for w in words if w['confidence'] > 80])
    medium_conf_words = len([w for w in words if 60 < w['confidence'] <= 80])
    low_conf_words = len([w for w in words if w['confidence'] <= 60])
    return {'text': full_text, 'confidence': round(avg_conf, 2), 'words': words,
            'word_count': len(words), 'quality_metrics': {...}}
  \<close>
\<close>

record box =
  box_x :: int
  box_y :: int
  box_width :: int
  box_height :: int

record word_entry =
  w_text :: pystr
  w_confidence :: int
  w_box :: box

record quality =
  high_confidence_words :: nat
  medium_confidence_words :: nat
  low_confidence_words :: nat

record conf_result =
  r_text :: pystr
  r_confidence :: real
  r_words :: "word_entry list"
  word_count :: nat
  quality_metrics :: quality

definition confidence_config :: pystr where
  "confidence_config =
     ascii ''--oem 3 '' @ ascii ''--psm 3 '' @ ascii ''-c preserve_interword_spaces=1''"

text \<open>One pass of the loop body at index \<open>i\<close>, with the list \<open>words\<close> built so far.\<close>

definition loop_body :: "tess_data \<Rightarrow> nat \<Rightarrow> word_entry list \<Rightarrow> error + word_entry list" where
  "loop_body d i words =
     bind_err (py_getitem (data_conf d) i) (\<lambda>c.
     bind_err (py_getitem (data_text d) i) (\<lambda>t.
       let conf = py_int c; txt = strip t in
       if 50 < conf \<and> txt \<noteq> [] then
         bind_err (py_getitem (data_left d) i) (\<lambda>l.
         bind_err (py_getitem (data_top d) i) (\<lambda>tp.
         bind_err (py_getitem (data_width d) i) (\<lambda>w.
         bind_err (py_getitem (data_height d) i) (\<lambda>h.
           Inr (words @ [\<lparr>w_text = txt, w_confidence = conf,
                           w_box = \<lparr>box_x = l, box_y = tp, box_width = w,
                                    box_height = h\<rparr>\<rparr>])))))
       else Inr words))"

fun for_range :: "tess_data \<Rightarrow> nat list \<Rightarrow> word_entry list \<Rightarrow> error + word_entry list" where
  "for_range d [] words = Inr words"
| "for_range d (i # idxs) words = bind_err (loop_body d i words) (for_range d idxs)"

definition summarize :: "word_entry list \<Rightarrow> conf_result" where
  "summarize words =
     (let full_text = join (ascii '' '') (map w_text words);
          avg_conf = (if words \<noteq> []
                      then py_truediv (sum_list (map w_confidence words)) (length words)
                      else 0);
          high_conf_words = length (filter (\<lambda>w. 80 < w_confidence w) words);
          medium_conf_words =
            length (filter (\<lambda>w. 60 < w_confidence w \<and> w_confidence w \<le> 80) words);
          low_conf_words = length (filter (\<lambda>w. w_confidence w \<le> 60) words)
      in \<lparr>r_text = full_text, r_confidence = py_round2 avg_conf, r_words = words,
          word_count = length words,
          quality_metrics = \<lparr>high_confidence_words = high_conf_words,
                              medium_confidence_words = medium_conf_words,
                              low_confidence_words = low_conf_words\<rparr>\<rparr>)"

definition extract_text_with_confidence ::
  "tesseract \<Rightarrow> mat \<Rightarrow> tess_call list \<Rightarrow> (error + conf_result) \<times> tess_call list" where
  "extract_text_with_confidence tess processed_image calls =
     (let pil_img = Image_fromarray processed_image;
          (data, calls') = image_to_data tess pil_img (ascii ''eng'') confidence_config calls
      in (bind_err data (\<lambda>d.
          bind_err (for_range d [0..<length (data_text d)] []) (\<lambda>words.
            Inr (summarize words))),
          calls'))"

text \<open>
  What the loop keeps, read off a table whose columns are long enough: row \<open>i\<close> is kept
  when its truncated confidence exceeds 50 and its stripped text is not empty, and the
  entry built from it copies the four box columns.
\<close>

definition keeps :: "tess_data \<Rightarrow> nat \<Rightarrow> bool" where
  "keeps d i \<longleftrightarrow> 50 < py_int (data_conf d ! i) \<and> strip (data_text d ! i) \<noteq> []"

definition row_entry :: "tess_data \<Rightarrow> nat \<Rightarrow> word_entry" where
  "row_entry d i =
     \<lparr>w_text = strip (data_text d ! i), w_confidence = py_int (data_conf d ! i),
      w_box = \<lparr>box_x = data_left d ! i, box_y = data_top d ! i,
               box_width = data_width d ! i, box_height = data_height d ! i\<rparr>\<rparr>"

text \<open>The table of a TSV answer read completely: all columns have one entry per row.\<close>

definition regular :: "tess_data \<Rightarrow> bool" where
  "regular d \<longleftrightarrow>
     length (data_conf d) = length (data_text d) \<and>
     length (data_left d) = length (data_text d) \<and>
     length (data_top d) = length (data_text d) \<and>
     length (data_width d) = length (data_text d) \<and>
     length (data_height d) = length (data_text d)"



section \<open>The text recognizers\<close>

text \<open>
  \<^verbatim>\<open>
    def extract_text_fast(processed_image):
        pil_img = Image.fromarray(processed_image)
        config = ('--oem 3 ' '--psm 6 ' '-c tessedit_char_blacklist=\u00a9\u00ae\u2122 '
                  '-c tessedit_do_invert=0 ' '-c load_system_dawg=1 ' '-c load_freq_dawg=1 '
                  '-c tessedit_pageseg_mode=6 ' '-c preserve_interword_spaces=1 ')
        text = pytesseract.image_to_string(pil_img, lang='eng', config=config)
        return text.strip()
  \<close>
\<close>

definition fast_config :: pystr where
  "fast_config =
     ascii ''--oem 3 '' @
     ascii ''--psm 6 '' @
     ascii ''-c tessedit_char_blacklist='' @ [0xA9, 0xAE, 0x2122] @ ascii '' '' @
     ascii ''-c tessedit_do_invert=0 '' @
     ascii ''-c load_system_dawg=1 '' @
     ascii ''-c load_freq_dawg=1 '' @
     ascii ''-c tessedit_pageseg_mode=6 '' @
     ascii ''-c preserve_interword_spaces=1 ''"

definition extract_text_fast ::
  "tesseract \<Rightarrow> mat \<Rightarrow> tess_call list \<Rightarrow> (error + pystr) \<times> tess_call list" where
  "extract_text_fast tess processed_image calls =
     (let pil_img = Image_fromarray processed_image;
          (text, calls') = image_to_string tess pil_img (ascii ''eng'') fast_config calls
      in (bind_err text (\<lambda>t. Inr (strip t)), calls'))"

definition accurate_config :: pystr where
  "accurate_config =
     ascii ''--oem 3 '' @
     ascii ''--psm 3 '' @
     ascii ''-c tessedit_char_blacklist='' @ [0xA9, 0xAE, 0x2122, 0xA7, 0xB6] @ ascii '' '' @
     ascii ''-c load_system_dawg=1 '' @
     ascii ''-c load_freq_dawg=1 '' @
     ascii ''-c load_punc_dawg=1 '' @
     ascii ''-c load_number_dawg=1 '' @
     ascii ''-c load_unambig_dawg=1 '' @
     ascii ''-c load_bigram_dawg=1 '' @
     ascii ''-c load_fixed_length_dawgs=1 '' @
     ascii ''-c wordrec_enable_assoc=1 '' @
     ascii ''-c tessedit_enable_dict_correction=1 '' @
     ascii ''-c language_model_penalty_non_dict_word=0.5 '' @
     ascii ''-c language_model_penalty_non_freq_dict_word=0.3 '' @
     ascii ''-c preserve_interword_spaces=1 '' @
     ascii ''-c tessedit_enable_bigram_correction=1 '' @
     ascii ''-c tosp_threshold_bias2=1.0 ''"

definition extract_text_accurate ::
  "tesseract \<Rightarrow> mat \<Rightarrow> tess_call list \<Rightarrow> (error + pystr) \<times> tess_call list" where
  "extract_text_accurate tess processed_image calls =
     (let pil_img = Image_fromarray processed_image;
          (text, calls') = image_to_string tess pil_img (ascii ''eng'') accurate_config calls
      in (bind_err text (\<lambda>t. Inr (strip t)), calls'))"

text \<open>
  \<^verbatim>\<open>
    def extract_code(processed_image):
        pil_img = Image.fromarray(processed_image)
        config = ('--oem 3 ' '--psm 4 ' '-c preserve_interword_spaces=1 '
                  '-c load_system_dawg=0 ' '-c load_freq_dawg=0 '
                  '-c tessedit_char_blacklist= ' '-c chop_enable=1 '
                  '-c use_new_state_cost=1 ' '-c segment_segcost_rating=1 '
                  '-c tosp_threshold_bias2=0 ')
        text = pytesseract.image_to_string(pil_img, lang='eng', config=config)
        return text.rstrip()
  \<close>
\<close>

definition code_config :: pystr where
  "code_config =
     ascii ''--oem 3 '' @
     ascii ''--psm 4 '' @
     ascii ''-c preserve_interword_spaces=1 '' @
     ascii ''-c load_system_dawg=0 '' @
     ascii ''-c load_freq_dawg=0 '' @
     ascii ''-c tessedit_char_blacklist= '' @
     ascii ''-c chop_enable=1 '' @
     ascii ''-c use_new_state_cost=1 '' @
     ascii ''-c segment_segcost_rating=1 '' @
     ascii ''-c tosp_threshold_bias2=0 ''"

definition extract_code ::
  "tesseract \<Rightarrow> mat \<Rightarrow> tess_call list \<Rightarrow> (error + pystr) \<times> tess_call list" where
  "extract_code tess processed_image calls =
     (let pil_img = Image_fromarray processed_image;
          (text, calls') = image_to_string tess pil_img (ascii ''eng'') code_config calls
      in (bind_err text (\<lambda>t. Inr (rstrip t)), calls'))"

subsection \<open>Reading a configuration string\<close>

text \<open>
  \<open>pytesseract\<close> hands the configuration to the engine's command line after
  \<open>shlex.split\<close>; the strings above hold no quote and no backslash, so the split is at
  runs of blanks. The engine reads \<open>--oem N\<close> and \<open>--psm N\<close> as options and
  \<open>-c VAR=VALUE\<close> as the setting of a variable, a later setting replacing an earlier one.
\<close>

definition shlex_blank :: "nat \<Rightarrow> bool" where
  "shlex_blank c \<longleftrightarrow> c = 32 \<or> c = 9 \<or> c = 13 \<or> c = 10"

fun split_args :: "pystr \<Rightarrow> pystr \<Rightarrow> pystr list" where
  "split_args cur [] = (if cur = [] then [] else [cur])"
| "split_args cur (c # cs) =
     (if shlex_blank c then (if cur = [] then split_args [] cs else cur # split_args [] cs)
      else split_args (cur @ [c]) cs)"

definition shlex_split :: "pystr \<Rightarrow> pystr list" where
  "shlex_split s = split_args [] s"

fun cli_option :: "pystr \<Rightarrow> pystr list \<Rightarrow> pystr option" where
  "cli_option name (a # v # rest) =
     (if a = name
      then (case cli_option name rest of None \<Rightarrow> Some v | Some v' \<Rightarrow> Some v')
      else cli_option name (v # rest))"
| "cli_option name rest = None"

definition split_assign :: "pystr \<Rightarrow> pystr \<times> pystr" where
  "split_assign s = (takeWhile (\<lambda>c. c \<noteq> 61) s, drop 1 (dropWhile (\<lambda>c. c \<noteq> 61) s))"

fun cli_vars :: "pystr list \<Rightarrow> (pystr \<times> pystr) list" where
  "cli_vars (a # v # rest) =
     (if a = [45, 99] then split_assign v # cli_vars rest else cli_vars (v # rest))"
| "cli_vars rest = []"

definition config_option :: "pystr \<Rightarrow> string \<Rightarrow> pystr option" where
  "config_option config name = cli_option (ascii name) (shlex_split config)"

definition config_var :: "pystr \<Rightarrow> string \<Rightarrow> pystr option" where
  "config_var config name = map_of (rev (cli_vars (shlex_split config))) (ascii name)"

section \<open>\<open>preprocess_image_fast\<close>\<close>

text \<open>
  \<^verbatim>\<open>
    def preprocess_image_fast(image_bytes):
        nparr = np.frombuffer(image_bytes, np.uint8)
        img = cv2.imdecode(nparr, cv2.IMREAD_GRAYSCALE)
        _, thresh = cv2.threshold(img, 0, 255, cv2.THRESH_BINARY + cv2.THRESH_OTSU)
        kernel = np.array([[-1,-1,-1],
                           [-1, 9,-1],
                           [-1,-1,-1]])
        sharpened = cv2.filter2D(thresh, -1, kernel)
        return sharpened
  \<close>
  The function is a sequence of OpenCV calls. The image codec, its colour conversion and
  the selection of Otsu's threshold are library code and stay parameters of the model;
  the thresholding of each pixel and the filter are written out.
\<close>

record cmat =
  cmat_rows :: nat
  cmat_cols :: nat
  cmat_data :: "(8 word \<times> 8 word \<times> 8 word) list"

datatype decoded = Gray mat | Color cmat

record cv2 =
  codec :: "8 word list \<Rightarrow> decoded option"
  gray_of_bgr :: "8 word \<times> 8 word \<times> 8 word \<Rightarrow> 8 word"
  otsu :: "mat \<Rightarrow> nat"

datatype imread_flag = IMREAD_UNCHANGED | IMREAD_GRAYSCALE | IMREAD_COLOR

definition cvt_gray :: "cv2 \<Rightarrow> cmat \<Rightarrow> mat" where
  "cvt_gray lib c =
     \<lparr>mat_rows = cmat_rows c, mat_cols = cmat_cols c,
      mat_data = map (gray_of_bgr lib) (cmat_data c)\<rparr>"

definition cvt_color :: "mat \<Rightarrow> cmat" where
  "cvt_color g =
     \<lparr>cmat_rows = mat_rows g, cmat_cols = mat_cols g,
      cmat_data = map (\<lambda>p. (p, p, p)) (mat_data g)\<rparr>"

definition np_frombuffer :: "8 word list \<Rightarrow> 8 word list" where
  "np_frombuffer image_bytes = image_bytes"

text \<open>\<open>cv2.imdecode(buf, flags)\<close>: \<open>None\<close> when the codec cannot read the bytes.\<close>

definition cv2_imdecode :: "cv2 \<Rightarrow> 8 word list \<Rightarrow> imread_flag \<Rightarrow> decoded option" where
  "cv2_imdecode lib buf flag =
     (case codec lib buf of
        None \<Rightarrow> None
      | Some img \<Rightarrow>
          (case flag of
             IMREAD_UNCHANGED \<Rightarrow> Some img
           | IMREAD_GRAYSCALE \<Rightarrow>
               Some (Gray (case img of Gray g \<Rightarrow> g | Color c \<Rightarrow> cvt_gray lib c))
           | IMREAD_COLOR \<Rightarrow>
               Some (Color (case img of Gray g \<Rightarrow> cvt_color g | Color c \<Rightarrow> c))))"

definition saturate_u8 :: "int \<Rightarrow> 8 word" where
  "saturate_u8 v = (if v < 0 then 0 else if 255 < v then 255 else word_of_int v)"

definition THRESH_BINARY :: nat where
  "THRESH_BINARY = 0"

definition THRESH_OTSU :: nat where
  "THRESH_OTSU = 8"

text \<open>
  The five threshold kinds of \<open>cv2.threshold\<close> (the low three bits of its type argument),
  in the library's numbering: binary, inverted binary, truncate, to zero, inverted to zero.
\<close>

definition threshold_pixel :: "nat \<Rightarrow> nat \<Rightarrow> 8 word \<Rightarrow> 8 word \<Rightarrow> 8 word" where
  "threshold_pixel kind t maxval p =
     (if kind = 0 then (if t < unat p then maxval else 0)
      else if kind = 1 then (if t < unat p then 0 else maxval)
      else if kind = 2 then (if t < unat p then of_nat t else p)
      else if kind = 3 then (if t < unat p then p else 0)
      else (if t < unat p then 0 else p))"

text \<open>
  \<open>cv2.threshold(src, thresh, maxval, type)\<close> on an 8-bit single-channel image. With the
  bit \<open>THRESH_OTSU\<close> set the argument \<open>thresh\<close> is ignored and the library's choice is
  used; the threshold used is returned with the image.
\<close>

definition cv2_threshold ::
  "cv2 \<Rightarrow> mat \<Rightarrow> nat \<Rightarrow> nat \<Rightarrow> nat \<Rightarrow> error + nat \<times> mat" where
  "cv2_threshold lib src thresh maxval thresh_type =
     (let kind = thresh_type mod 8;
          t = (if (thresh_type div 8) mod 2 = 1 then otsu lib src else thresh)
      in if 4 < kind then Inl Cv2Error
         else Inr (t, src\<lparr>mat_data :=
                          map (threshold_pixel kind t (saturate_u8 (int maxval))) (mat_data src)\<rparr>))"

text \<open>
  \<open>cv::borderInterpolate\<close> for the default border of \<open>filter2D\<close>, \<open>BORDER_REFLECT_101\<close>:
  a coordinate outside \<open>0..len-1\<close> is mirrored at the edge pixel, as often as needed.
\<close>

function borderInterpolate :: "int \<Rightarrow> int \<Rightarrow> int" where
  "borderInterpolate p len =
     (if 0 \<le> p \<and> p < len then p
      else if len \<le> 1 then 0
      else if p < 0 then borderInterpolate (- p) len
      else borderInterpolate (len - 1 - (p - len) - 1) len)"
  by pat_completeness auto
termination
  by (relation "measure (\<lambda>(p, len). if p < 0 then nat (- p) else nat (p - len + 1))") auto

declare borderInterpolate.simps [simp del]

definition at_border :: "mat \<Rightarrow> int \<Rightarrow> int \<Rightarrow> 8 word" where
  "at_border m y x =
     pixel m (nat (borderInterpolate y (int (mat_rows m))))
             (nat (borderInterpolate x (int (mat_cols m))))"

text \<open>
  \<open>cv2.filter2D(src, -1, kernel)\<close>: the correlation of the image with the kernel, anchored
  at the kernel's centre, saturated to the 8 bits of the source.
\<close>

definition cv2_filter2D :: "mat \<Rightarrow> int list list \<Rightarrow> mat" where
  "cv2_filter2D src kern =
     (let ay = int (length kern div 2);
          ax = int ((case kern of [] \<Rightarrow> 0 | krow # _ \<Rightarrow> length krow) div 2);
          response = (\<lambda>y x. sum_list (concat (map (\<lambda>(i, krow).
                        map (\<lambda>(j, k). k * uint (at_border src (int y + int i - ay)
                                                               (int x + int j - ax)))
                            (enumerate 0 krow)) (enumerate 0 kern))))
      in \<lparr>mat_rows = mat_rows src, mat_cols = mat_cols src,
          mat_data = concat (map (\<lambda>y. map (\<lambda>x. saturate_u8 (response y x))
                                          [0..<mat_cols src]) [0..<mat_rows src])\<rparr>)"

definition kernel_array :: "int list list" where
  "kernel_array = [[-1, -1, -1],
                   [-1,  9, -1],
                   [-1, -1, -1]]"

definition preprocess_image_fast :: "cv2 \<Rightarrow> 8 word list \<Rightarrow> error + mat" where
  "preprocess_image_fast lib image_bytes =
     (let nparr = np_frombuffer image_bytes;
          img = cv2_imdecode lib nparr IMREAD_GRAYSCALE
      in case img of
           Some (Gray g) \<Rightarrow>
             bind_err (cv2_threshold lib g 0 255 (THRESH_BINARY + THRESH_OTSU)) (\<lambda>(t, thresh).
               let sharpened = cv2_filter2D thresh kernel_array
               in Inr sharpened)
         | _ \<Rightarrow> Inl Cv2Error)"

subsection \<open>The stages in the words of the specification\<close>

text \<open>
  Decode, convert to grayscale if the image is not grayscale already, binarize at the
  global threshold chosen by Otsu's method, convolve once with a fixed 3 by 3 kernel.
\<close>

definition to_grayscale :: "cv2 \<Rightarrow> decoded \<Rightarrow> mat" where
  "to_grayscale lib img = (case img of Gray g \<Rightarrow> g | Color c \<Rightarrow> cvt_gray lib c)"

definition binarize :: "nat \<Rightarrow> mat \<Rightarrow> mat" where
  "binarize t g = g\<lparr>mat_data := map (\<lambda>p. if t < unat p then 255 else 0) (mat_data g)\<rparr>"

definition sharpen_kernel :: "int \<Rightarrow> int \<Rightarrow> int" where
  "sharpen_kernel dy dx = (if dy = 0 \<and> dx = 0 then 9 else - 1)"

definition convolve3x3 :: "(int \<Rightarrow> int \<Rightarrow> int) \<Rightarrow> mat \<Rightarrow> mat" where
  "convolve3x3 K src =
     \<lparr>mat_rows = mat_rows src, mat_cols = mat_cols src,
      mat_data = concat (map (\<lambda>y. map (\<lambda>x.
          saturate_u8 (sum_list (concat (map (\<lambda>dy. map (\<lambda>dx.
              K dy dx * uint (at_border src (int y - dy) (int x - dx))) [- 1, 0, 1])
            [- 1, 0, 1]))))
        [0..<mat_cols src]) [0..<mat_rows src])\<rparr>"

definition prepare_fast_stages :: "cv2 \<Rightarrow> decoded \<Rightarrow> mat" where
  "prepare_fast_stages lib img =
     (let gray = to_grayscale lib img;
          binary = binarize (otsu lib gray) gray
      in convolve3x3 sharpen_kernel binary)"

definition binary_mat :: "mat \<Rightarrow> bool" where
  "binary_mat m \<longleftrightarrow> list_all (\<lambda>p. p = 0 \<or> p = 255) (mat_data m)"

section \<open>Mode dispatch\<close>

text \<open>
  Modelled from the spec: the mode enumeration of the request layer. The backend module
  that receives the mode string (\<open>main.py\<close>) is not among the sources; only its callers
  are (\<open>background.js\<close> and the content scripts send the field \<open>mode\<close>). The
  specification gives the enumeration as fast, accurate, code, confidence.
\<close>

datatype mode = Fast | Accurate | Code | Confidence

text \<open>
  Modelled from the spec: a mode string outside the enumeration is not a mode.
\<close>

definition parse_mode :: "pystr \<Rightarrow> mode option" where
  "parse_mode s =
     (if s = ascii ''fast'' then Some Fast
      else if s = ascii ''accurate'' then Some Accurate
      else if s = ascii ''code'' then Some Code
      else if s = ascii ''confidence'' then Some Confidence
      else None)"

datatype recognition = PlainText pystr | Scored conf_result

text \<open>
  The state of one request: the byte strings handed to a preprocessor so far, and the
  calls made to the engine.
\<close>

record pipeline =
  prepared :: "8 word list list"
  engine_calls :: "tess_call list"

text \<open>
  Modelled from the spec: the recognizer of each mode (\<open>recognize_fast\<close>,
  \<open>recognize_accurate\<close>, \<open>recognize_code\<close>, \<open>recognize_with_confidence\<close>), which are the
  four functions of \<open>ocr_engine.py\<close>.
\<close>

definition recognize ::
  "tesseract \<Rightarrow> mode \<Rightarrow> mat \<Rightarrow> tess_call list \<Rightarrow> (error + recognition) \<times> tess_call list" where
  "recognize tess m buffer calls =
     (case m of
        Fast \<Rightarrow>
          (let (r, calls') = extract_text_fast tess buffer calls
           in (bind_err r (\<lambda>t. Inr (PlainText t)), calls'))
      | Accurate \<Rightarrow>
          (let (r, calls') = extract_text_accurate tess buffer calls
           in (bind_err r (\<lambda>t. Inr (PlainText t)), calls'))
      | Code \<Rightarrow>
          (let (r, calls') = extract_code tess buffer calls
           in (bind_err r (\<lambda>t. Inr (PlainText t)), calls'))
      | Confidence \<Rightarrow>
          (let (r, calls') = extract_text_with_confidence tess buffer calls
           in (bind_err r (\<lambda>c. Inr (Scored c)), calls')))"

text \<open>
  Modelled from the spec: the dispatch. An unrecognized mode string signals
  \<open>UnsupportedModeError\<close>; otherwise the preprocessor of the mode runs, then its
  recognizer. Which preprocessor serves which mode is not fixed by the specification, so
  the preprocessors are the parameter \<open>prepare\<close>.
\<close>

definition process_request ::
  "(mode \<Rightarrow> 8 word list \<Rightarrow> error + mat) \<Rightarrow> tesseract \<Rightarrow> pystr \<Rightarrow> 8 word list \<Rightarrow> pipeline \<Rightarrow>
     (error + recognition) \<times> pipeline" where
  "process_request prepare tess mode_string image_bytes st =
     (case parse_mode mode_string of
        None \<Rightarrow> (Inl (UnsupportedModeError mode_string), st)
      | Some m \<Rightarrow>
          (let st1 = st\<lparr>prepared := prepared st @ [image_bytes]\<rparr>
           in case prepare m image_bytes of
                Inl e \<Rightarrow> (Inl e, st1)
              | Inr buffer \<Rightarrow>
                  (let (r, calls') = recognize tess m buffer (engine_calls st1)
                   in (r, st1\<lparr>engine_calls := calls'\<rparr>))))"

section \<open>Sample inputs\<close>

text \<open>
  A 2 by 2 image as the codec delivers it, the binary image it becomes, an OpenCV whose
  codec reads every non-empty byte string as that image, and an engine table with the
  page row and three words.
\<close>

definition example_gray :: mat where
  "example_gray = \<lparr>mat_rows = 2, mat_cols = 2, mat_data = [10, 200, 130, 90]\<rparr>"

definition example_image :: mat where
  "example_image = \<lparr>mat_rows = 2, mat_cols = 2, mat_data = [0, 255, 255, 0]\<rparr>"

definition example_cv2 :: cv2 where
  "example_cv2 =
     \<lparr>codec = (\<lambda>buf. if buf = [] then None else Some (Gray example_gray)),
      gray_of_bgr = (\<lambda>(b, g, r). g),
      otsu = (\<lambda>m. 127)\<rparr>"

definition example_table :: tess_data where
  "example_table =
     \<lparr>data_text = [[], ascii ''def'', ascii '' f(x): '', ascii ''return''],
      data_conf = [- 1, 51, 52, 52],
      data_left = [0, 0, 1, 0],
      data_top = [0, 0, 0, 1],
      data_width = [2, 1, 1, 2],
      data_height = [2, 1, 1, 1]\<rparr>"


section \<open>Properties of the Python values\<close>

lemma bitlen_pos: "0 < x \<Longrightarrow> bitlen x = bitlen (x div 2) + 1"
  by (subst compute_bitlen) simp

lemma half_even_close: "\<bar>of_int (half_even v) - v\<bar> \<le> 1 / 2"
  unfolding half_even_def Let_def by (auto simp: abs_le_iff)

lemma ldexp_powi: "ldexp m k = m * 2 powi k"
  by (simp add: ldexp_def power_int_def field_simps)

lemma binary_exponent_le:
  assumes "0 < q"
  shows "2 powi binary_exponent q \<le> q"
proof (cases "1 \<le> q")
  case True
  then have n: "0 < \<lfloor>q\<rfloor>" by linarith
  from bitlen_bounds[OF n] have "2 ^ nat (bitlen \<lfloor>q\<rfloor> - 1) \<le> \<lfloor>q\<rfloor>" by blast
  then have "(2::real) ^ nat (bitlen \<lfloor>q\<rfloor> - 1) \<le> of_int \<lfloor>q\<rfloor>"
    by (metis of_int_le_iff of_int_numeral of_int_power)
  also have "\<dots> \<le> q" by linarith
  finally have "(2::real) ^ nat (bitlen \<lfloor>q\<rfloor> - 1) \<le> q" .
  moreover have "0 \<le> bitlen \<lfloor>q\<rfloor> - 1"
    using n by (simp add: bitlen_alt_def)
  ultimately show ?thesis
    using True by (simp add: binary_exponent_def power_int_def)
next
  case False
  with assms have "1 < 1 / q" by simp
  then have m: "0 < \<lceil>1 / q\<rceil> - 1" by linarith
  let ?k = "nat (bitlen (\<lceil>1 / q\<rceil> - 1))"
  from bitlen_bounds[OF m] have "\<lceil>1 / q\<rceil> - 1 < 2 ^ ?k" by blast
  then have "\<lceil>1 / q\<rceil> \<le> 2 ^ ?k" by simp
  then have "of_int \<lceil>1 / q\<rceil> \<le> (2::real) ^ ?k"
    by (metis of_int_le_iff of_int_numeral of_int_power)
  moreover have "1 / q \<le> of_int \<lceil>1 / q\<rceil>" by linarith
  ultimately have "1 / q \<le> (2::real) ^ ?k" by linarith
  with assms have "1 / 2 ^ ?k \<le> q"
    by (simp add: field_simps)
  moreover have "- bitlen (\<lceil>1 / q\<rceil> - 1) \<le> 0"
    using bitlen_nonneg[of "\<lceil>1 / q\<rceil> - 1"] by simp
  moreover have "0 < bitlen (\<lceil>1 / q\<rceil> - 1)"
    using m by (simp add: bitlen_alt_def)
  ultimately show ?thesis
    using False by (simp add: binary_exponent_def power_int_def field_simps)
qed

lemma nearest_double_close: "\<bar>nearest_double q - q\<bar> \<le> \<bar>q\<bar> / 2 ^ 53"
proof (cases "q = 0")
  case True
  then show ?thesis by (simp add: nearest_double_def)
next
  case False
  define a where "a = \<bar>q\<bar>"
  define e where "e = binary_exponent a"
  define s where "s = a * 2 powi (52 - e)"
  define m where "m = half_even s"
  have a: "0 < a" using False by (simp add: a_def)
  have nd: "nearest_double q = sgn q * (of_int m * 2 powi (e - 52))"
    using False by (simp add: nearest_double_def Let_def ldexp_powi a_def e_def s_def m_def)
  have q: "q = sgn q * a" by (simp add: a_def sgn_if)
  have as: "a = s * 2 powi (e - 52)"
    by (simp add: s_def mult.assoc flip: power_int_add)
  have "\<bar>nearest_double q - q\<bar> = \<bar>sgn q * (of_int m * 2 powi (e - 52) - a)\<bar>"
    using q by (simp add: nd algebra_simps)
  also have "\<dots> = \<bar>of_int m * 2 powi (e - 52) - a\<bar>"
    using False by (simp add: abs_mult sgn_if)
  also have "\<dots> = \<bar>of_int m - s\<bar> * 2 powi (e - 52)"
    by (subst as) (simp add: abs_mult flip: left_diff_distrib)
  also have "\<dots> \<le> 1 / 2 * 2 powi (e - 52)"
    using half_even_close[of s] by (intro mult_right_mono) (simp_all add: m_def)
  also have "\<dots> = 2 powi e / 2 ^ 53"
    by (simp add: power_int_diff)
  also have "\<dots> \<le> a / 2 ^ 53"
    using binary_exponent_le[OF a] by (simp add: e_def divide_right_mono)
  finally show ?thesis by (simp add: a_def)
qed

lemma py_round2_close:
  assumes "0 \<le> q"
  shows "\<bar>py_round2 (nearest_double q) - q\<bar> \<le> 1 / 200 + (3 * q + 1) / 2 ^ 53"
proof -
  define x where "x = nearest_double q"
  define y where "y = real_of_int (half_even (x * 100)) / 100"
  define z where "z = nearest_double y"
  have xq: "\<bar>x - q\<bar> \<le> q / 2 ^ 53"
    using nearest_double_close[of q] assms by (simp add: x_def)
  have "\<bar>real_of_int (half_even (x * 100)) - x * 100\<bar> \<le> 1 / 2"
    by (rule half_even_close)
  then have yx: "\<bar>y - x\<bar> \<le> 1 / 200"
    by (simp add: y_def abs_le_iff field_simps)
  have "q / 2 ^ 53 \<le> q" using assms by (simp add: field_simps)
  with xq yx have ya: "\<bar>y\<bar> \<le> 2 * q + 1 / 200" by linarith
  have "\<bar>z - y\<bar> \<le> \<bar>y\<bar> / 2 ^ 53"
    unfolding z_def by (rule nearest_double_close)
  also have "\<dots> \<le> (2 * q + 1 / 200) / 2 ^ 53"
    using ya by (rule divide_right_mono) simp
  finally have zy: "\<bar>z - y\<bar> \<le> (2 * q + 1 / 200) / 2 ^ 53" .
  have "\<bar>z - q\<bar> \<le> (2 * q + 1 / 200) / 2 ^ 53 + 1 / 200 + q / 2 ^ 53"
    using zy yx xq by linarith
  also have "\<dots> \<le> 1 / 200 + (3 * q + 1) / 2 ^ 53"
    by (simp add: field_simps)
  finally show ?thesis by (simp add: z_def y_def x_def py_round2_def)
qed

lemmas double_eval =
  py_round2_def py_truediv_def nearest_double_def binary_exponent_def bitlen_pos ldexp_def
  half_even_def Let_def

lemma round_below_tie:
  "py_round2 (py_truediv 2047 40) = nearest_double (5117 / 100) \<and>
   py_round2 (py_truediv 2047 40) \<noteq> nearest_double (5118 / 100)"
  by (simp add: double_eval)

lemma rstrip_split: "\<exists>ws. t = rstrip t @ ws \<and> list_all isspace ws"
proof -
  have "rev t = takeWhile isspace (rev t) @ dropWhile isspace (rev t)" by simp
  then have "t = rev (dropWhile isspace (rev t)) @ rev (takeWhile isspace (rev t))"
    by (metis rev_append rev_rev_ident)
  moreover have "list_all isspace (rev (takeWhile isspace (rev t)))"
    by (simp add: list_all_iff) (meson set_takeWhileD)
  ultimately show ?thesis unfolding rstrip_def by blast
qed

lemma rstrip_last: "rstrip t \<noteq> [] \<Longrightarrow> \<not> isspace (last (rstrip t))"
  unfolding rstrip_def by (simp add: last_rev hd_dropWhile)

lemma rstrip_hd: "rstrip t \<noteq> [] \<Longrightarrow> hd (rstrip t) = hd t"
  using rstrip_split[of t] by (metis hd_append2)


lemma lstrip_hd: "lstrip t \<noteq> [] \<Longrightarrow> \<not> isspace (hd (lstrip t))"
  unfolding lstrip_def by (simp add: hd_dropWhile)


lemma strip_ends: "strip t \<noteq> [] \<Longrightarrow> \<not> isspace (hd (strip t)) \<and> \<not> isspace (last (strip t))"
  unfolding strip_def using rstrip_last[of "lstrip t"] rstrip_hd[of "lstrip t"] lstrip_hd[of t]
  by (metis rstrip_def rev.simps(1) dropWhile.simps(1))

lemma join_Nil_iff: "\<forall>p\<in>set ps. p \<noteq> [] \<Longrightarrow> join sep ps = [] \<longleftrightarrow> ps = []"
  by (induction sep ps rule: join.induct) auto

lemma join_hd: "ps \<noteq> [] \<Longrightarrow> \<forall>p\<in>set ps. p \<noteq> [] \<Longrightarrow> hd (join sep ps) = hd (hd ps)"
  by (induction sep ps rule: join.induct) auto

lemma join_last: "ps \<noteq> [] \<Longrightarrow> \<forall>p\<in>set ps. p \<noteq> [] \<Longrightarrow> last (join sep ps) = last (last ps)"
proof (induction sep ps rule: join.induct)
  case (3 sep p q ps)
  then have "join sep (q # ps) \<noteq> []" using join_Nil_iff[of "q # ps" sep] by simp
  with 3 show ?case by simp
qed auto

section \<open>The loop of \<open>extract_text_with_confidence\<close>\<close>

lemma loop_body_Inr:
  assumes "loop_body d i acc = Inr ws" and "i < length (data_text d)"
  shows "ws = acc @ map (row_entry d) (filter (keeps d) [i])"
  using assms
  by (auto simp: loop_body_def bind_err_def py_getitem_def keeps_def row_entry_def Let_def
           split: if_splits sum.splits)

lemma for_range_Inr:
  "for_range d idxs acc = Inr ws \<Longrightarrow> \<forall>i\<in>set idxs. i < length (data_text d) \<Longrightarrow>
   ws = acc @ map (row_entry d) (filter (keeps d) idxs)"
proof (induction idxs arbitrary: acc)
  case Nil
  then show ?case by simp
next
  case (Cons i idxs)
  from Cons.prems(1) obtain mid where
    m: "loop_body d i acc = Inr mid" and r: "for_range d idxs mid = Inr ws"
    by (auto simp: bind_err_def split: sum.splits)
  from loop_body_Inr[OF m] Cons.prems(2)
  have "mid = acc @ map (row_entry d) (filter (keeps d) [i])" by simp
  moreover from Cons.IH[OF r] Cons.prems(2)
  have "ws = mid @ map (row_entry d) (filter (keeps d) idxs)" by simp
  ultimately show ?case by simp
qed

lemma loop_body_regular:
  assumes "regular d" and "i < length (data_text d)"
  shows "\<exists>ws. loop_body d i acc = Inr ws"
  using assms
  by (auto simp: loop_body_def bind_err_def py_getitem_def regular_def Let_def)

lemma for_range_regular:
  "regular d \<Longrightarrow> \<forall>i\<in>set idxs. i < length (data_text d) \<Longrightarrow>
   \<exists>ws. for_range d idxs acc = Inr ws"
proof (induction idxs arbitrary: acc)
  case Nil
  then show ?case by simp
next
  case (Cons i idxs)
  from loop_body_regular[OF Cons.prems(1), of i acc] Cons.prems(2)
  obtain mid where m: "loop_body d i acc = Inr mid" by auto
  from Cons.IH[OF Cons.prems(1), of mid] Cons.prems(2)
  obtain ws where "for_range d idxs mid = Inr ws" by auto
  with m show ?case by (simp add: bind_err_def)
qed

lemma extract_with_table:
  assumes "image_to_data tess (Image_fromarray img) (ascii ''eng'') confidence_config calls
             = (Inr d, calls')"
  shows "extract_text_with_confidence tess img calls =
           (bind_err (for_range d [0..<length (data_text d)] []) (\<lambda>words. Inr (summarize words)),
            calls')"
  using assms by (simp add: extract_text_with_confidence_def bind_err_def)

lemma extract_with_table_regular:
  assumes "image_to_data tess (Image_fromarray img) (ascii ''eng'') confidence_config calls
             = (Inr d, calls')"
      and "regular d"
  shows "extract_text_with_confidence tess img calls =
           (Inr (summarize (map (row_entry d) (filter (keeps d) [0..<length (data_text d)]))),
            calls')"
proof -
  from for_range_regular[OF assms(2), of "[0..<length (data_text d)]" "[]"]
  obtain ws where ws: "for_range d [0..<length (data_text d)] [] = Inr ws" by auto
  from for_range_Inr[OF ws]
  have "ws = map (row_entry d) (filter (keeps d) [0..<length (data_text d)])" by simp
  with ws show ?thesis
    by (simp add: extract_with_table[OF assms(1)] bind_err_def)
qed

lemma example_regular: "regular example_table"
  by (simp add: regular_def example_table_def)

lemma example_call:
  "image_to_data (fixed_engine out example_table) (Image_fromarray example_image)
     (ascii ''eng'') confidence_config [] =
   (Inr example_table,
    [\<lparr>call_op = ImageToData, call_image = example_image, call_lang = ascii ''eng'',
      call_config = confidence_config\<rparr>])"
  by (simp add: image_to_data_def fixed_engine_def Image_fromarray_def)

lemma example_words:
  "map (row_entry example_table) (filter (keeps example_table) [0..<length (data_text example_table)])
   = [\<lparr>w_text = ascii ''def'', w_confidence = 51,
       w_box = \<lparr>box_x = 0, box_y = 0, box_width = 1, box_height = 1\<rparr>\<rparr>,
      \<lparr>w_text = ascii ''f(x):'', w_confidence = 52,
       w_box = \<lparr>box_x = 1, box_y = 0, box_width = 1, box_height = 1\<rparr>\<rparr>,
      \<lparr>w_text = ascii ''return'', w_confidence = 52,
       w_box = \<lparr>box_x = 0, box_y = 1, box_width = 2, box_height = 1\<rparr>\<rparr>]"
  by (simp add: example_table_def keeps_def row_entry_def py_int_def strip_def rstrip_def
        lstrip_def isspace_def ascii_def upt_conv_Cons)

section \<open>Claims about \<open>extract_text_with_confidence\<close>\<close>

lemma mean_below:
  fixes cs :: "int list"
  assumes "cs \<noteq> []" and "\<forall>c\<in>set cs. real_of_int c < B"
  shows "real_of_int (sum_list cs) / real (length cs) < B"
proof -
  have "cs \<noteq> [] \<Longrightarrow> \<forall>c\<in>set cs. real_of_int c < B \<Longrightarrow>
        real_of_int (sum_list cs) < real (length cs) * B"
  proof (induction cs)
    case Nil
    then show ?case by simp
  next
    case (Cons c cs)
    show ?case
    proof (cases "cs = []")
      case True
      with Cons.prems show ?thesis by simp
    next
      case False
      with Cons have "real_of_int (sum_list cs) < real (length cs) * B" by simp
      moreover from Cons.prems have "real_of_int c < B" by simp
      ultimately show ?thesis by (simp add: algebra_simps)
    qed
  qed
  with assms show ?thesis by (simp add: field_simps)
qed

lemma py_int_le_self: "0 \<le> v \<Longrightarrow> real_of_int (py_int v) \<le> v"
  by (simp add: py_int_def)

text \<open>
  Claim C1, as amended. On an engine table with one entry per row in every column and
  scores that a double can hold (below \<open>2^1023\<close>), \<open>extract_text_with_confidence\<close> returns
  a result; no returned token has a confidence below 50; the reported confidence is the
  arithmetic mean of the returned tokens' confidences rounded to two decimal places
  (\<open>round(avg_conf, 2)\<close> on the float quotient), and 0 when no token is returned: it is
  at most half a hundredth, and the rounding error of the two float operations, away
  from the mean, and it stays in the range of a double; the three counters of the quality
  histogram count the returned tokens with confidence above 80, from 61 to 80, and at
  most 60.
\<close>

theorem confidence_is_rounded_mean:
  assumes "image_to_data tess (Image_fromarray img) (ascii ''eng'') confidence_config calls
             = (Inr d, calls')"
      and "regular d"
      and "list_all (\<lambda>v. v < 2 ^ 1023) (data_conf d)"
  shows "\<exists>r. extract_text_with_confidence tess img calls = (Inr r, calls') \<and>
             (\<forall>w\<in>set (r_words r). \<not> w_confidence w < 50) \<and>
             r_confidence r =
               (if r_words r = [] then 0
                else py_round2 (py_truediv (sum_list (map w_confidence (r_words r)))
                                           (length (r_words r)))) \<and>
             (r_words r \<noteq> [] \<longrightarrow>
                \<bar>r_confidence r - real_of_int (sum_list (map w_confidence (r_words r)))
                                   / real (length (r_words r))\<bar>
                  \<le> 1 / 200 + (3 * (real_of_int (sum_list (map w_confidence (r_words r)))
                                      / real (length (r_words r))) + 1) / 2 ^ 53) \<and>
             r_confidence r < 2 ^ 1024 \<and>
             high_confidence_words (quality_metrics r) =
               length (filter (\<lambda>w. 80 < w_confidence w) (r_words r)) \<and>
             medium_confidence_words (quality_metrics r) =
               length (filter (\<lambda>w. 61 \<le> w_confidence w \<and> w_confidence w \<le> 80) (r_words r)) \<and>
             low_confidence_words (quality_metrics r) =
               length (filter (\<lambda>w. w_confidence w \<le> 60) (r_words r))"
proof -
  define ws where "ws = map (row_entry d) (filter (keeps d) [0..<length (data_text d)])"
  define q where "q = real_of_int (sum_list (map w_confidence ws)) / real (length ws)"
  have res: "extract_text_with_confidence tess img calls = (Inr (summarize ws), calls')"
    unfolding ws_def by (rule extract_with_table_regular[OF assms(1,2)])
  have above: "\<forall>w\<in>set ws. 50 < w_confidence w"
    by (auto simp: ws_def row_entry_def keeps_def)
  then have floor: "\<forall>w\<in>set ws. \<not> w_confidence w < 50"
    by auto
  have zero: "py_round2 0 = 0"
    by (simp add: py_round2_def nearest_double_def half_even_def)
  have med: "(\<lambda>w. 60 < w_confidence w \<and> w_confidence w \<le> 80) =
             (\<lambda>w::word_entry. 61 \<le> w_confidence w \<and> w_confidence w \<le> 80)"
    by auto
  have conf: "r_confidence (summarize ws) =
      (if ws = [] then 0 else py_round2 (py_truediv (sum_list (map w_confidence ws)) (length ws)))"
    by (simp add: summarize_def Let_def zero)
  have below: "\<forall>c\<in>set (map w_confidence ws). real_of_int c < 2 ^ 1023"
  proof
    fix c assume "c \<in> set (map w_confidence ws)"
    then obtain i where i: "i < length (data_text d)" "keeps d i"
      and c: "c = py_int (data_conf d ! i)"
      by (auto simp: ws_def row_entry_def)
    from i(2) have "0 \<le> data_conf d ! i"
      by (auto simp: keeps_def py_int_def split: if_splits)
    then have "real_of_int c \<le> data_conf d ! i"
      unfolding c by (rule py_int_le_self)
    moreover have "data_conf d ! i < 2 ^ 1023"
      using assms(2,3) i(1) by (simp add: regular_def list_all_length)
    ultimately show "real_of_int c < 2 ^ 1023" by linarith
  qed
  have close: "\<bar>r_confidence (summarize ws) - q\<bar> \<le> 1 / 200 + (3 * q + 1) / 2 ^ 53"
    and range: "r_confidence (summarize ws) < 2 ^ 1024" if ne: "ws \<noteq> []"
  proof -
    have "0 \<le> sum_list (map w_confidence ws)"
      using above by (intro sum_list_nonneg) auto
    then have q0: "0 \<le> q" by (simp add: q_def)
    have rc: "r_confidence (summarize ws) = py_round2 (nearest_double q)"
      using ne by (simp add: conf py_truediv_def q_def)
    show c: "\<bar>r_confidence (summarize ws) - q\<bar> \<le> 1 / 200 + (3 * q + 1) / 2 ^ 53"
      unfolding rc by (rule py_round2_close[OF q0])
    define B :: real where "B = 2 ^ 1023"
    have qb: "q < B"
      unfolding q_def B_def
      using mean_below[of "map w_confidence ws" "2 ^ 1023"] ne below by simp
    have B1: "1 \<le> B" unfolding B_def by (rule one_le_power) simp
    have "(3 * q + 1) / 2 ^ 53 \<le> (3 * q + 1) / 8"
      using q0 by (intro divide_left_mono) simp_all
    with c have "r_confidence (summarize ws) \<le> q + 1 / 200 + (3 * q + 1) / 8"
      by linarith
    also have "\<dots> < 2 * B"
      using qb B1 by argo
    also have "2 * B = 2 ^ 1024"
      unfolding B_def by simp
    finally show "r_confidence (summarize ws) < 2 ^ 1024" .
  qed
  have range0: "r_confidence (summarize ws) < 2 ^ 1024" if "ws = []"
    unfolding conf using that by simp
  have words: "r_words (summarize ws) = ws"
    by (simp add: summarize_def Let_def)
  have hist: "high_confidence_words (quality_metrics (summarize ws)) =
        length (filter (\<lambda>w. 80 < w_confidence w) ws) \<and>
      medium_confidence_words (quality_metrics (summarize ws)) =
        length (filter (\<lambda>w. 61 \<le> w_confidence w \<and> w_confidence w \<le> 80) ws) \<and>
      low_confidence_words (quality_metrics (summarize ws)) =
        length (filter (\<lambda>w. w_confidence w \<le> 60) ws)"
    by (simp add: summarize_def Let_def med)
  show ?thesis
    apply (rule exI[of _ "summarize ws"])
    using floor conf close range range0 hist
    by (auto simp: res words q_def)
qed

theorem confidence_is_rounded_mean_witness:
  "regular example_table \<and>
   list_all (\<lambda>v. v < 2 ^ 1023) (data_conf example_table) \<and>
   (\<exists>r. extract_text_with_confidence (fixed_engine [] example_table) example_image [] =
          (Inr r, [\<lparr>call_op = ImageToData, call_image = example_image,
                     call_lang = ascii ''eng'', call_config = confidence_config\<rparr>]) \<and>
        r_confidence r = nearest_double (5167 / 100) \<and>
        low_confidence_words (quality_metrics r) = 3)"
proof -
  have range: "list_all (\<lambda>v. v < 2 ^ 1023) (data_conf example_table)"
    by (simp add: example_table_def)
  from confidence_is_rounded_mean[OF example_call example_regular range, of "[]"]
  obtain r where r:
    "extract_text_with_confidence (fixed_engine [] example_table) example_image [] =
       (Inr r, [\<lparr>call_op = ImageToData, call_image = example_image,
                  call_lang = ascii ''eng'', call_config = confidence_config\<rparr>])"
    by blast
  have "r = summarize (map (row_entry example_table)
              (filter (keeps example_table) [0..<length (data_text example_table)]))"
    using r extract_with_table_regular[OF example_call example_regular, of "[]"] by simp
  then have "r_confidence r = nearest_double (5167 / 100)"
    "low_confidence_words (quality_metrics r) = 3"
    by (simp_all add: example_words summarize_def double_eval)
  with r example_regular range show ?thesis by blast
qed

text \<open>
  The claim as stated fails where the mean has more than two decimals: for the kept
  confidences 51, 52 and 52 the function reports the double for 51.67, which is
  \<open>3635953011659899 / 2^46\<close> and not 155 / 3.
\<close>

theorem confidence_is_not_exact_mean:
  "extract_text_with_confidence (fixed_engine [] example_table) example_image [] =
     (Inr \<lparr>r_text = ascii ''def f(x): return'',
           r_confidence = 3635953011659899 / 70368744177664,
           r_words =
             [\<lparr>w_text = ascii ''def'', w_confidence = 51,
               w_box = \<lparr>box_x = 0, box_y = 0, box_width = 1, box_height = 1\<rparr>\<rparr>,
              \<lparr>w_text = ascii ''f(x):'', w_confidence = 52,
               w_box = \<lparr>box_x = 1, box_y = 0, box_width = 1, box_height = 1\<rparr>\<rparr>,
              \<lparr>w_text = ascii ''return'', w_confidence = 52,
               w_box = \<lparr>box_x = 0, box_y = 1, box_width = 2, box_height = 1\<rparr>\<rparr>],
           word_count = 3,
           quality_metrics = \<lparr>high_confidence_words = 0, medium_confidence_words = 0,
                               low_confidence_words = 3\<rparr>\<rparr>,
      [\<lparr>call_op = ImageToData, call_image = example_image, call_lang = ascii ''eng'',
        call_config = confidence_config\<rparr>]) \<and>
   (3635953011659899 / 70368744177664 :: real) \<noteq> real_of_int (51 + 52 + 52) / real 3"
  by (simp add: extract_with_table_regular[OF example_call example_regular] example_words
        summarize_def double_eval ascii_def)







text \<open>
  Claim C10. On an engine table with one entry per row in every column, the returned
  tokens are the kept rows in the engine's order; the field \<open>text\<close> is their texts joined
  by single spaces, a value fixed by the text and confidence columns alone, whatever the
  layout columns say; every token text is non-empty and neither starts nor ends with
  white space; so the combined text, unless empty, neither starts nor ends with white
  space.
\<close>

theorem text_is_joined_tokens:
  assumes "image_to_data tess (Image_fromarray img) (ascii ''eng'') confidence_config calls
             = (Inr d, calls')"
      and "regular d"
  shows "\<exists>r. extract_text_with_confidence tess img calls = (Inr r, calls') \<and>
             r_words r = map (row_entry d) (filter (keeps d) [0..<length (data_text d)]) \<and>
             r_text r = join [32] (map w_text (r_words r)) \<and>
             r_text r = join [32] (map (\<lambda>i. strip (data_text d ! i))
                                      (filter (keeps d) [0..<length (data_text d)])) \<and>
             (\<forall>w\<in>set (r_words r).
                w_text w \<noteq> [] \<and> \<not> isspace (hd (w_text w)) \<and> \<not> isspace (last (w_text w))) \<and>
             (r_text r = [] \<or>
                \<not> isspace (hd (r_text r)) \<and> \<not> isspace (last (r_text r)))"
proof -
  define ws where "ws = map (row_entry d) (filter (keeps d) [0..<length (data_text d)])"
  have res: "extract_text_with_confidence tess img calls = (Inr (summarize ws), calls')"
    unfolding ws_def by (rule extract_with_table_regular[OF assms])
  have sp: "ascii '' '' = [32]" by (simp add: ascii_def)
  have texts: "map w_text ws =
      map (\<lambda>i. strip (data_text d ! i)) (filter (keeps d) [0..<length (data_text d)])"
    by (simp add: ws_def row_entry_def)
  have tok: "\<forall>w\<in>set ws. w_text w \<noteq> [] \<and> \<not> isspace (hd (w_text w)) \<and> \<not> isspace (last (w_text w))"
    using strip_ends by (auto simp: ws_def row_entry_def keeps_def)
  have ne: "\<forall>p\<in>set (map w_text ws). p \<noteq> []" using tok by simp
  have ends: "join [32] (map w_text ws) = [] \<or>
      \<not> isspace (hd (join [32] (map w_text ws))) \<and> \<not> isspace (last (join [32] (map w_text ws)))"
  proof (cases "ws = []")
    case True
    then show ?thesis by simp
  next
    case False
    then have m: "map w_text ws \<noteq> []" by simp
    have "hd ws \<in> set ws" "last ws \<in> set ws" using False by simp_all
    with tok have "\<not> isspace (hd (w_text (hd ws)))" "\<not> isspace (last (w_text (last ws)))"
      by blast+
    then show ?thesis
      using join_hd[OF m ne, of "[32]"] join_last[OF m ne, of "[32]"] False
      by (simp add: hd_map last_map)
  qed
  show ?thesis
    apply (rule exI[of _ "summarize ws"])
    using tok ends texts
    by (simp add: res summarize_def Let_def sp ws_def[symmetric])
qed

theorem text_is_joined_tokens_witness:
  "regular example_table \<and>
   (\<exists>r. extract_text_with_confidence (fixed_engine [] example_table) example_image [] =
          (Inr r, [\<lparr>call_op = ImageToData, call_image = example_image,
                     call_lang = ascii ''eng'', call_config = confidence_config\<rparr>]) \<and>
        r_text r = ascii ''def f(x): return'')"
proof -
  from text_is_joined_tokens[OF example_call example_regular, of "[]"]
  obtain r where r:
    "extract_text_with_confidence (fixed_engine [] example_table) example_image [] =
       (Inr r, [\<lparr>call_op = ImageToData, call_image = example_image,
                  call_lang = ascii ''eng'', call_config = confidence_config\<rparr>])"
    and w: "r_words r = map (row_entry example_table)
              (filter (keeps example_table) [0..<length (data_text example_table)])"
    and t: "r_text r = join [32] (map w_text (r_words r))"
    by blast
  from t have "r_text r = ascii ''def f(x): return''"
    unfolding w example_words by (simp add: ascii_def)
  with r example_regular show ?thesis by blast
qed

section \<open>The stages of \<open>preprocess_image_fast\<close>\<close>

lemma borderInterpolate_range:
  "0 < len \<Longrightarrow> 0 \<le> borderInterpolate p len \<and> borderInterpolate p len < len"
proof (induction p len rule: borderInterpolate.induct)
  case (1 p len)
  show ?case
  proof (cases "0 \<le> p \<and> p < len")
    case True
    then show ?thesis by (subst borderInterpolate.simps, simp)+
  next
    case out: False
    show ?thesis
    proof (cases "len \<le> 1")
      case True
      with out 1(3) show ?thesis by (subst borderInterpolate.simps, simp)+
    next
      case big: False
      show ?thesis
      proof (cases "p < 0")
        case True
        have e: "borderInterpolate p len = borderInterpolate (- p) len"
          using out big True by (subst borderInterpolate.simps) simp
        from 1(1)[OF out big True 1(3)] show ?thesis unfolding e .
      next
        case False
        have e: "borderInterpolate p len = borderInterpolate (len - 1 - (p - len) - 1) len"
          using out big False by (subst borderInterpolate.simps) simp
        from 1(2)[OF out big False 1(3)] show ?thesis unfolding e .
      qed
    qed
  qed
qed

lemma pixel_in_data:
  assumes "valid_mat m" and "y < mat_rows m" and "x < mat_cols m"
  shows "pixel m y x \<in> set (mat_data m)"
proof -
  have "y * mat_cols m + x < Suc y * mat_cols m" using assms(3) by simp
  also have "\<dots> \<le> mat_rows m * mat_cols m"
    using assms(2) by (intro mult_le_mono1) simp
  finally show ?thesis
    using assms(1) by (simp add: pixel_def valid_mat_def)
qed

lemma at_border_in_data:
  assumes "valid_mat m"
  shows "at_border m y x \<in> set (mat_data m)"
proof -
  have r: "0 < int (mat_rows m)" and c: "0 < int (mat_cols m)"
    using assms by (simp_all add: valid_mat_def)
  from borderInterpolate_range[OF r, of y] borderInterpolate_range[OF c, of x]
  show ?thesis unfolding at_border_def
    by (intro pixel_in_data[OF assms]) (simp_all add: nat_less_iff)
qed

lemma at_border_binary:
  assumes "valid_mat m" and "binary_mat m"
  shows "at_border m y x = 0 \<or> at_border m y x = 255"
  using at_border_in_data[OF assms(1), of y x] assms(2)
  by (auto simp: binary_mat_def list_all_iff)

lemma borderInterpolate_inside:
  "0 \<le> p \<Longrightarrow> p < len \<Longrightarrow> borderInterpolate p len = p"
  by (subst borderInterpolate.simps) simp

lemma at_border_inside:
  assumes "y < mat_rows m" and "x < mat_cols m"
  shows "at_border m (int y) (int x) = pixel m y x"
  using assms by (simp add: at_border_def borderInterpolate_inside)

lemma sharpen_centre:
  fixes c :: "8 word"
  assumes "c = 0 \<or> c = 255" and "0 \<le> s" and "s \<le> 8 * 255"
  shows "saturate_u8 (9 * uint c - s) = c"
  using assms by (auto simp: saturate_u8_def)

lemma uint8_bounds: "0 \<le> uint (w :: 8 word) \<and> uint w \<le> 255"
  using uint_lt2p[of w] by simp

lemma convolve_pixel:
  assumes "valid_mat m" and "binary_mat m"
  shows "saturate_u8 (sum_list (concat (map (\<lambda>dy. map (\<lambda>dx.
              sharpen_kernel dy dx * uint (at_border m (y - dy) (x - dx))) [- 1, 0, 1])
            [- 1, 0, 1]))) = at_border m y x"
proof -
  define s where "s = uint (at_border m (y + 1) (x + 1)) + uint (at_border m (y + 1) x)
     + uint (at_border m (y + 1) (x - 1)) + uint (at_border m y (x + 1))
     + uint (at_border m y (x - 1)) + uint (at_border m (y - 1) (x + 1))
     + uint (at_border m (y - 1) x) + uint (at_border m (y - 1) (x - 1))"
  have sum: "sum_list (concat (map (\<lambda>dy. map (\<lambda>dx.
              sharpen_kernel dy dx * uint (at_border m (y - dy) (x - dx))) [- 1, 0, 1])
            [- 1, 0, 1])) = 9 * uint (at_border m y x) - s"
    by (simp add: sharpen_kernel_def s_def)
  have "0 \<le> s" "s \<le> 8 * 255"
    unfolding s_def
    using uint8_bounds[of "at_border m (y + 1) (x + 1)"] uint8_bounds[of "at_border m (y + 1) x"]
      uint8_bounds[of "at_border m (y + 1) (x - 1)"] uint8_bounds[of "at_border m y (x + 1)"]
      uint8_bounds[of "at_border m y (x - 1)"] uint8_bounds[of "at_border m (y - 1) (x + 1)"]
      uint8_bounds[of "at_border m (y - 1) x"] uint8_bounds[of "at_border m (y - 1) (x - 1)"]
    by linarith+
  with at_border_binary[OF assms, of y x] show ?thesis
    unfolding sum by (rule sharpen_centre)
qed


lemma row_of_data:
  assumes "i + c \<le> length xs"
  shows "map (\<lambda>x. xs ! (i + x)) [0..<c] = take c (drop i xs)"
  using assms by (intro nth_equalityI) simp_all

lemma rows_of_data:
  "r * c \<le> length xs \<Longrightarrow>
   concat (map (\<lambda>y. map (\<lambda>x. xs ! (y * c + x)) [0..<c]) [0..<r]) = take (r * c) xs"
proof (induction r)
  case 0
  then show ?case by simp
next
  case (Suc r)
  then have le: "r * c + c \<le> length xs" by simp
  then have "r * c \<le> length xs" by simp
  from Suc.IH[OF this] row_of_data[OF le]
  have "concat (map (\<lambda>y. map (\<lambda>x. xs ! (y * c + x)) [0..<c]) [0..<Suc r])
          = take (r * c) xs @ take c (drop (r * c) xs)"
    by simp
  also have "\<dots> = take (r * c + c) xs"
    by (simp only: take_add)
  also have "r * c + c = Suc r * c" by simp
  finally show ?case .
qed

lemma pixels_of_mat:
  assumes "valid_mat m"
  shows "concat (map (\<lambda>y. map (\<lambda>x. pixel m y x) [0..<mat_cols m]) [0..<mat_rows m]) = mat_data m"
  using assms rows_of_data[of "mat_rows m" "mat_cols m" "mat_data m"]
  by (simp add: pixel_def valid_mat_def)

lemma convolve_binary_id:
  assumes "valid_mat m" and "binary_mat m"
  shows "convolve3x3 sharpen_kernel m = m"
proof -
  have px: "saturate_u8 (sum_list (concat (map (\<lambda>dy. map (\<lambda>dx.
              sharpen_kernel dy dx * uint (at_border m (int y - dy) (int x - dx))) [- 1, 0, 1])
            [- 1, 0, 1]))) = pixel m y x"
    if "y \<in> set [0..<mat_rows m]" and "x \<in> set [0..<mat_cols m]" for y x
  proof -
    from that have "y < mat_rows m" "x < mat_cols m" by simp_all
    then show ?thesis
      using convolve_pixel[OF assms, of "int y" "int x"] by (simp only: at_border_inside)
  qed
  have "concat (map (\<lambda>y. map (\<lambda>x.
          saturate_u8 (sum_list (concat (map (\<lambda>dy. map (\<lambda>dx.
              sharpen_kernel dy dx * uint (at_border m (int y - dy) (int x - dx))) [- 1, 0, 1])
            [- 1, 0, 1]))))
        [0..<mat_cols m]) [0..<mat_rows m])
      = concat (map (\<lambda>y. map (\<lambda>x. pixel m y x) [0..<mat_cols m]) [0..<mat_rows m])"
    by (intro arg_cong[where f = concat] map_cong refl px)
  then show ?thesis
    by (simp only: convolve3x3_def pixels_of_mat[OF assms(1)]) simp
qed

lemma filter2D_kernel_array: "cv2_filter2D m kernel_array = convolve3x3 sharpen_kernel m"
  by (simp add: cv2_filter2D_def convolve3x3_def kernel_array_def sharpen_kernel_def
        algebra_simps)

lemma threshold_otsu_binary:
  "cv2_threshold lib g 0 255 (THRESH_BINARY + THRESH_OTSU) =
     Inr (otsu lib g, binarize (otsu lib g) g)"
  by (simp add: cv2_threshold_def THRESH_BINARY_def THRESH_OTSU_def binarize_def
        threshold_pixel_def saturate_u8_def Let_def)

lemma imdecode_grayscale:
  "cv2_imdecode lib buf IMREAD_GRAYSCALE = map_option (\<lambda>img. Gray (to_grayscale lib img)) (codec lib buf)"
  by (simp add: cv2_imdecode_def to_grayscale_def split: option.splits)

lemma binarize_binary: "binary_mat (binarize t g)"
  by (auto simp: binary_mat_def binarize_def list_all_iff)

lemma binarize_valid: "valid_mat g \<Longrightarrow> valid_mat (binarize t g)"
  by (simp add: valid_mat_def binarize_def)

section \<open>Claims about \<open>preprocess_image_fast\<close>\<close>

lemma example_decode: "codec example_cv2 [1] = Some (Gray example_gray)"
  by (simp add: example_cv2_def)

lemma example_gray_valid: "valid_mat (to_grayscale example_cv2 (Gray example_gray))"
  by (simp add: to_grayscale_def valid_mat_def example_gray_def)

lemma example_binarized:
  "binarize (otsu example_cv2 (to_grayscale example_cv2 (Gray example_gray)))
            (to_grayscale example_cv2 (Gray example_gray)) = example_image"
  by (simp add: to_grayscale_def binarize_def example_cv2_def example_gray_def example_image_def)

text \<open>
  Claim C5. For every input the codec decodes to a valid image (at least one row and one
  column, one pixel per position), \<open>preprocess_image_fast\<close> returns a buffer of the same
  size in which every pixel is 0 or 255. The sharpening filter keeps the image binary
  because on a binary image it changes nothing: with the centre weight 9 and eight
  weights -1 the saturated response at a pixel of value 0 is 0 and at a pixel of value
  255 is 255, so the returned buffer is the thresholded image itself.
\<close>

theorem prepare_fast_binary:
  assumes "codec lib image_bytes = Some img" and "valid_mat (to_grayscale lib img)"
  shows "\<exists>out. preprocess_image_fast lib image_bytes = Inr out \<and>
           list_all (\<lambda>p. p = 0 \<or> p = 255) (mat_data out) \<and>
           mat_rows out = mat_rows (to_grayscale lib img) \<and>
           mat_cols out = mat_cols (to_grayscale lib img) \<and>
           out = binarize (otsu lib (to_grayscale lib img)) (to_grayscale lib img)"
proof -
  let ?g = "to_grayscale lib img"
  let ?b = "binarize (otsu lib ?g) ?g"
  have "preprocess_image_fast lib image_bytes = Inr (convolve3x3 sharpen_kernel ?b)"
    by (simp add: preprocess_image_fast_def imdecode_grayscale np_frombuffer_def assms(1)
        threshold_otsu_binary filter2D_kernel_array bind_err_def)
  also have "convolve3x3 sharpen_kernel ?b = ?b"
    by (rule convolve_binary_id[OF binarize_valid[OF assms(2)] binarize_binary])
  finally have "preprocess_image_fast lib image_bytes = Inr ?b" .
  moreover have "list_all (\<lambda>p. p = 0 \<or> p = 255) (mat_data ?b)"
    using binarize_binary[of "otsu lib ?g" ?g] by (simp add: binary_mat_def)
  moreover have "mat_rows ?b = mat_rows ?g" "mat_cols ?b = mat_cols ?g"
    by (simp_all add: binarize_def)
  ultimately show ?thesis by blast
qed

theorem prepare_fast_binary_witness:
  "codec example_cv2 [1] = Some (Gray example_gray) \<and>
   valid_mat (to_grayscale example_cv2 (Gray example_gray)) \<and>
   preprocess_image_fast example_cv2 [1] = Inr example_image \<and>
   list_all (\<lambda>p. p = 0 \<or> p = 255) (mat_data example_image)"
proof -
  from prepare_fast_binary[OF example_decode example_gray_valid]
  obtain out where "preprocess_image_fast example_cv2 [1] = Inr out"
    and "list_all (\<lambda>p. p = 0 \<or> p = 255) (mat_data out)"
    and "out = binarize (otsu example_cv2 (to_grayscale example_cv2 (Gray example_gray)))
                        (to_grayscale example_cv2 (Gray example_gray))"
    by blast
  then show ?thesis
    using example_decode example_gray_valid by (simp add: example_binarized)
qed

text \<open>
  Claim C6. \<open>preprocess_image_fast\<close> computes the staged algorithm of the specification:
  when the codec reads the bytes, the result is the decoded image, converted to
  grayscale if it is not grayscale already, binarized at the global threshold of Otsu's
  method, and convolved once with the fixed 3 by 3 sharpening kernel; each stage is
  applied once. When the codec cannot read the bytes the function raises. The choice of
  Otsu's threshold and the codec are OpenCV's and enter as parameters.
\<close>

theorem prepare_fast_refines_stages:
  "preprocess_image_fast lib image_bytes =
     (case codec lib image_bytes of
        None \<Rightarrow> Inl Cv2Error
      | Some img \<Rightarrow> Inr (prepare_fast_stages lib img))"
  by (simp add: preprocess_image_fast_def imdecode_grayscale np_frombuffer_def
        threshold_otsu_binary filter2D_kernel_array prepare_fast_stages_def bind_err_def
        Let_def split: option.splits)

theorem prepare_fast_refines_stages_witness:
  "preprocess_image_fast example_cv2 [1] = Inr (prepare_fast_stages example_cv2 (Gray example_gray)) \<and>
   preprocess_image_fast example_cv2 [] = Inl Cv2Error"
  using prepare_fast_refines_stages[of example_cv2 "[1]"]
    prepare_fast_refines_stages[of example_cv2 "[]"]
  by (simp add: example_cv2_def)

section \<open>The configurations as the engine reads them\<close>

lemma code_config_args:
  "shlex_split code_config =
     [ascii ''--oem'', ascii ''3'', ascii ''--psm'', ascii ''4'',
      ascii ''-c'', ascii ''preserve_interword_spaces=1'',
      ascii ''-c'', ascii ''load_system_dawg=0'',
      ascii ''-c'', ascii ''load_freq_dawg=0'',
      ascii ''-c'', ascii ''tessedit_char_blacklist='',
      ascii ''-c'', ascii ''chop_enable=1'',
      ascii ''-c'', ascii ''use_new_state_cost=1'',
      ascii ''-c'', ascii ''segment_segcost_rating=1'',
      ascii ''-c'', ascii ''tosp_threshold_bias2=0'']"
  by (simp add: shlex_split_def code_config_def ascii_def shlex_blank_def)

lemma code_config_reading:
  "config_option code_config ''--oem'' = Some (ascii ''3'') \<and>
   config_option code_config ''--psm'' = Some (ascii ''4'') \<and>
   config_var code_config ''preserve_interword_spaces'' = Some (ascii ''1'') \<and>
   config_var code_config ''load_system_dawg'' = Some (ascii ''0'') \<and>
   config_var code_config ''load_freq_dawg'' = Some (ascii ''0'') \<and>
   config_var code_config ''tessedit_char_blacklist'' = Some []"
  unfolding config_option_def config_var_def code_config_args
  by (simp add: ascii_def split_assign_def)



section \<open>Claims about the recognizers\<close>

text \<open>
  Claim C3. \<open>extract_code\<close> invokes the engine once, on the buffer, for the language
  \<open>eng\<close>, with a configuration that the engine reads as page segmentation mode 4 (a
  single column of text), system and frequency dictionaries switched off, inter-word
  spaces preserved and an empty character blacklist. Whatever text the engine answers,
  the function returns a prefix of it: the part cut off is white space only and the
  returned text does not end in white space, so leading and internal white space are
  returned unchanged.
\<close>

theorem extract_code_strips_trailing_only:
  assumes "image_to_string tess (Image_fromarray img) (ascii ''eng'') code_config calls
             = (Inr out, calls')"
  shows "\<exists>txt ws. extract_code tess img calls = (Inr txt, calls') \<and>
           out = txt @ ws \<and> list_all isspace ws \<and>
           (txt = [] \<or> \<not> isspace (last txt)) \<and>
           calls' = calls @ [\<lparr>call_op = ImageToString, call_image = img,
                               call_lang = ascii ''eng'', call_config = code_config\<rparr>] \<and>
           config_option code_config ''--psm'' = Some (ascii ''4'') \<and>
           config_var code_config ''load_system_dawg'' = Some (ascii ''0'') \<and>
           config_var code_config ''load_freq_dawg'' = Some (ascii ''0'') \<and>
           config_var code_config ''preserve_interword_spaces'' = Some (ascii ''1'') \<and>
           config_var code_config ''tessedit_char_blacklist'' = Some []"
proof -
  from rstrip_split[of out] obtain ws where ws: "out = rstrip out @ ws" "list_all isspace ws"
    by blast
  have res: "extract_code tess img calls = (Inr (rstrip out), calls')"
    using assms by (simp add: extract_code_def bind_err_def)
  have log: "calls' = calls @ [\<lparr>call_op = ImageToString, call_image = img,
                                 call_lang = ascii ''eng'', call_config = code_config\<rparr>]"
    using assms by (auto simp: image_to_string_def Image_fromarray_def)
  have "rstrip out = [] \<or> \<not> isspace (last (rstrip out))"
    using rstrip_last[of out] by blast
  with res ws log code_config_reading show ?thesis by blast
qed

theorem extract_code_strips_trailing_only_witness:
  "image_to_string (fixed_engine (ascii ''  a   b  '') example_table)
      (Image_fromarray example_image) (ascii ''eng'') code_config [] =
     (Inr (ascii ''  a   b  ''),
      [\<lparr>call_op = ImageToString, call_image = example_image, call_lang = ascii ''eng'',
        call_config = code_config\<rparr>]) \<and>
   extract_code (fixed_engine (ascii ''  a   b  '') example_table) example_image [] =
     (Inr (ascii ''  a   b''),
      [\<lparr>call_op = ImageToString, call_image = example_image, call_lang = ascii ''eng'',
        call_config = code_config\<rparr>])"
proof -
  have call: "image_to_string (fixed_engine (ascii ''  a   b  '') example_table)
      (Image_fromarray example_image) (ascii ''eng'') code_config [] =
     (Inr (ascii ''  a   b  ''),
      [\<lparr>call_op = ImageToString, call_image = example_image, call_lang = ascii ''eng'',
        call_config = code_config\<rparr>])"
    by (simp add: image_to_string_def fixed_engine_def Image_fromarray_def)
  from extract_code_strips_trailing_only[OF call]
  obtain t ws where r: "extract_code (fixed_engine (ascii ''  a   b  '') example_table)
        example_image [] =
       (Inr t, [\<lparr>call_op = ImageToString, call_image = example_image,
                    call_lang = ascii ''eng'', call_config = code_config\<rparr>])"
    and s: "ascii ''  a   b  '' = t @ ws" "list_all isspace ws"
           "t = [] \<or> \<not> isspace (last t)"
    by blast
  have "extract_code (fixed_engine (ascii ''  a   b  '') example_table) example_image [] =
       (Inr (ascii ''  a   b''),
        [\<lparr>call_op = ImageToString, call_image = example_image, call_lang = ascii ''eng'',
          call_config = code_config\<rparr>])"
    using call
    by (simp add: extract_code_def bind_err_def rstrip_def isspace_def ascii_def)
  with r have "t = ascii ''  a   b''" by simp
  with r call show ?thesis by simp
qed



text \<open>
  Claim C4. With the engine not installed, each of the four recognizers returns the
  library's \<open>TesseractNotFoundError\<close> (the specification's \<open>EngineUnavailableError\<close>) with
  its diagnostic message, and the log of engine calls grows by exactly one entry: the
  call is attempted once and not repeated.
\<close>

theorem engine_unavailable_signalled:
  "extract_text_fast (NotInstalled msg) img calls =
     (Inl (TesseractNotFoundError msg),
      calls @ [\<lparr>call_op = ImageToString, call_image = img, call_lang = ascii ''eng'',
                call_config = fast_config\<rparr>]) \<and>
   extract_text_accurate (NotInstalled msg) img calls =
     (Inl (TesseractNotFoundError msg),
      calls @ [\<lparr>call_op = ImageToString, call_image = img, call_lang = ascii ''eng'',
                call_config = accurate_config\<rparr>]) \<and>
   extract_code (NotInstalled msg) img calls =
     (Inl (TesseractNotFoundError msg),
      calls @ [\<lparr>call_op = ImageToString, call_image = img, call_lang = ascii ''eng'',
                call_config = code_config\<rparr>]) \<and>
   extract_text_with_confidence (NotInstalled msg) img calls =
     (Inl (TesseractNotFoundError msg),
      calls @ [\<lparr>call_op = ImageToData, call_image = img, call_lang = ascii ''eng'',
                call_config = confidence_config\<rparr>])"
  by (simp add: extract_text_fast_def extract_text_accurate_def extract_code_def
        extract_text_with_confidence_def image_to_string_def image_to_data_def
        Image_fromarray_def bind_err_def)

section \<open>Claims about the mode dispatch\<close>

text \<open>
  Claim C9. For every mode string other than \<open>fast\<close>, \<open>accurate\<close>, \<open>code\<close> and
  \<open>confidence\<close>, the dispatch signals \<open>UnsupportedModeError\<close> and leaves the state of the
  request as it was: nothing was handed to a preprocessor and the engine was not called.
\<close>

theorem unsupported_mode_no_processing:
  assumes "mode_string \<notin> {ascii ''fast'', ascii ''accurate'', ascii ''code'',
                            ascii ''confidence''}"
  shows "process_request prepare tess mode_string image_bytes st =
           (Inl (UnsupportedModeError mode_string), st)"
  using assms by (simp add: process_request_def parse_mode_def)

theorem unsupported_mode_no_processing_witness:
  "ascii ''quality'' \<notin> {ascii ''fast'', ascii ''accurate'', ascii ''code'',
                            ascii ''confidence''} \<and>
   process_request (\<lambda>m. preprocess_image_fast example_cv2)
       (fixed_engine (ascii ''a'') example_table) (ascii ''quality'') [1]
       \<lparr>prepared = [], engine_calls = []\<rparr> =
     (Inl (UnsupportedModeError (ascii ''quality'')), \<lparr>prepared = [], engine_calls = []\<rparr>)"
proof -
  have m: "ascii ''quality'' \<notin> {ascii ''fast'', ascii ''accurate'', ascii ''code'',
                                    ascii ''confidence''}"
    by (simp add: ascii_def)
  from unsupported_mode_no_processing[OF m] m show ?thesis by blast
qed

end
